theory Spec2Isabelle
  imports Main
begin

section \<open>Packets, ports, node state\<close>

text \<open>
  The embedding follows \<^verbatim>\<open>src/lib/ProcessInput.js\<close>. A \<^verbatim>\<open>ProcessInput\<close> object
  and everything it reaches (the inports, the component instance, the processing context and its
  result) is one state record; every method takes the state and returns its outcome together
  with the state it leaves behind, also when it throws: a JavaScript exception does not undo
  the assignments made before it.
\<close>

datatype kind = Data | OpenBracket | CloseBracket

datatype 'a IP = IP (ip_type: kind) (ip_data: 'a)

type_synonym scope = "string option"

type_synonym bufkey = "scope \<times> nat option"

text \<open>
  What the code throws. The first three are the \<^verbatim>\<open>new Error(...)\<close> of the source; \<open>TypeError\<close>
  is what the JavaScript runtime raises when a property of \<^verbatim>\<open>undefined\<close> is read, written or
  called, or when a value that has no such method is asked to run it.
\<close>

datatype error =
    NoPort string
  | NonAddressableAccess
  | AddressableAccess
  | TypeError

text \<open>
  Modelled from the spec: the port object (\<^verbatim>\<open>InPort.js\<close> is not part of the sources at hand).
  A port has a name-independent capability flag, an attachment list and one ordered queue of
  packets per scope and index; \<open>has\<close> peeks, \<open>get\<close> dequeues in FIFO order.
\<close>

record 'a InPort =
  addressable :: bool
  attachedList :: "nat list"
  buffer :: "bufkey \<Rightarrow> 'a IP list"

text \<open>
  A JavaScript predicate is a function together with the variables it closes over: the step
  takes the captured state and the packet and returns the verdict and the new captured state.
\<close>

type_synonym ('a, 'st) validator = "'st \<Rightarrow> 'a IP \<Rightarrow> bool \<times> 'st"

text \<open>
  Modelled from the spec: \<^verbatim>\<open>port.has(scope, [idx,] validate)\<close>, the peek
  \<^verbatim>\<open>hasMatching(scope, index?, predicate)\<close>. It offers the buffered packets of the partition
  to the predicate in order, without consuming them, and stops at the first one accepted.
\<close>

fun scan :: "('a, 'st) validator \<Rightarrow> 'st \<Rightarrow> 'a IP list \<Rightarrow> bool \<times> 'st" where
  "scan validate st [] = (False, st)"
| "scan validate st (ip # buf) =
     (case validate st ip of
        (True, st') \<Rightarrow> (True, st')
      | (False, st') \<Rightarrow> scan validate st' buf)"

text \<open>
  Modelled from the spec: the peek of one partition of a port, \<^verbatim>\<open>port.has\<close> with the scope, the
  optional index and the predicate.
\<close>

definition port_has ::
  "'a InPort \<Rightarrow> scope \<Rightarrow> nat option \<Rightarrow> ('a, 'st) validator \<Rightarrow> 'st \<Rightarrow> bool \<times> 'st" where
  "port_has p sc idx validate st = scan validate st (buffer p (sc, idx))"

text \<open>
  Modelled from the spec: \<^verbatim>\<open>port.get(scope, idx)\<close>, the destructive FIFO dequeue of the
  partition; \<open>None\<close> is the \<^verbatim>\<open>undefined\<close> of an exhausted buffer.
\<close>

definition port_get :: "'a InPort \<Rightarrow> scope \<Rightarrow> nat option \<Rightarrow> 'a IP option \<times> 'a InPort" where
  "port_get p sc idx =
     (case buffer p (sc, idx) of
        [] \<Rightarrow> (None, p)
      | ip # rest \<Rightarrow> (Some ip, p\<lparr>buffer := (buffer p)((sc, idx) := rest)\<rparr>))"

text \<open>
  A bracket context, the object literal \<^verbatim>\<open>{ ip, ports: [], source: port }\<close> of the forwarding
  read, with the \<^verbatim>\<open>closeIp\<close> property that is assigned when the bracket closes. Contexts are
  objects shared by reference between the live stack, the snapshot in the result and the list of
  closed brackets, so they live in a store and the arrays hold their addresses.
\<close>

record 'a bracket =
  br_ip :: "'a IP"
  br_ports :: "string list"
  br_source :: string
  br_closeIp :: "'a IP option"

type_synonym ref = nat

text \<open>
  Modelled from the spec: the component instance (\<^verbatim>\<open>Component.js\<close> is not part of the sources at
  hand): the ordered flag, the forwarding-inport test, the load counter and one stack of open
  bracket contexts per (port, scope, index) for direction \<^verbatim>\<open>'in'\<close>. A stack is a JavaScript
  array: \<^verbatim>\<open>push\<close> appends at the end and \<^verbatim>\<open>pop\<close> takes from the end.
\<close>

record Component =
  nodeId :: string
  isOrdered :: bool
  isForwardingInport :: "string \<Rightarrow> bool"
  load :: nat
  bracketContext :: "string \<times> scope \<times> nat option \<Rightarrow> ref list"

text \<open>
  The result of the invocation: \<^verbatim>\<open>__resolved\<close>, \<^verbatim>\<open>__bracketClosingBefore\<close> and
  \<^verbatim>\<open>__bracketContext\<close>, each \<open>None\<close> while the property is undefined.
\<close>

record Result =
  resolved :: "bool option"
  bracketClosingBefore :: "ref list option"
  resBracketContext :: "(string \<rightharpoonup> ref list) option"

text \<open>
  The fields of the \<^verbatim>\<open>ProcessInput\<close> object. \<open>activated\<close> is \<^verbatim>\<open>context.activated\<close>,
  \<open>result\<close> is \<^verbatim>\<open>context.result\<close>, \<open>store\<close> holds the bracket contexts allocated so far (an
  address is an index into it). \<^verbatim>\<open>this.ip\<close> and \<^verbatim>\<open>this.port\<close> only feed the debug log and are
  left out.

  \<^verbatim>\<open>this.ports[name]\<close> is a property lookup on the ports object: \<open>ports\<close> gives the port
  registered under a name, and \<open>inherited\<close> says for which other names the lookup answers with
  a truthy value that is not a port (what the object and its prototype chain carry, such as
  \<^verbatim>\<open>constructor\<close>). The class of the ports object is not part of the sources at hand, so these
  names are a parameter of the state. For every other name the lookup is \<^verbatim>\<open>undefined\<close> (or
  falsy), which the guards of \<open>has\<close> and \<open>attached\<close> take for a missing port.
\<close>

record 'a ProcessInput =
  ports :: "string \<rightharpoonup> 'a InPort"
  inherited :: "string \<Rightarrow> bool"
  nodeInstance :: Component
  activated :: bool
  result :: Result
  scope :: scope
  store :: "'a bracket list"

text \<open>A port argument: a plain name, or the array \<^verbatim>\<open>[name, idx]\<close>.\<close>

datatype portref = Name string | Indexed string nat

text \<open>
  An argument of the variadic precondition methods: a port argument or a function.
\<close>

datatype 'f param = Port portref | Fun 'f

text \<open>
  What a read returns: the single value when one port was requested, the array otherwise.
\<close>

datatype 'b ret = One 'b | Many "'b list"

section \<open>Activation\<close>

text \<open>
  Modelled from the spec: \<^verbatim>\<open>nodeInstance.activate(context)\<close> increments the load and marks the
  context activated.
\<close>

definition node_activate :: "'a ProcessInput \<Rightarrow> 'a ProcessInput" where
  "node_activate s =
     s\<lparr>nodeInstance := (nodeInstance s)\<lparr>load := load (nodeInstance s) + 1\<rparr>,
       activated := True\<rparr>"

definition activate :: "'a ProcessInput \<Rightarrow> 'a ProcessInput" where
  "activate s =
     (if activated s then s
      else node_activate
             (if isOrdered (nodeInstance s)
              then s\<lparr>result := (result s)\<lparr>resolved := Some False\<rparr>\<rparr>
              else s))"

section \<open>Connection listing\<close>

text \<open>
  The callback of \<^verbatim>\<open>args.forEach\<close> in \<open>attached\<close> (lines 53 to 58). A name that the ports object
  answers with something that is not a port passes the guard of line 54, and
  \<^verbatim>\<open>listAttached()\<close> on line 57 is then a TypeError.
\<close>

fun attached_each ::
  "'a ProcessInput \<Rightarrow> nat list list \<Rightarrow> string list \<Rightarrow> (error + nat list list) \<times> 'a ProcessInput" where
  "attached_each s acc [] = (Inr acc, s)"
| "attached_each s acc (port # rest) =
     (case ports s port of
        None \<Rightarrow>
          if inherited s port then (Inl TypeError, s)
          else (Inl (NoPort port), s)
      | Some p \<Rightarrow> attached_each s (acc @ [attachedList p]) rest)"

definition attached ::
  "'a ProcessInput \<Rightarrow> string list \<Rightarrow> (error + nat list ret) \<times> 'a ProcessInput" where
  "attached s params =
     (let args = (if params = [] then [''in''] else params) in
      case attached_each s [] args of
        (Inl e, s') \<Rightarrow> (Inl e, s')
      | (Inr r, s') \<Rightarrow> (Inr (if length args = 1 then One (last r) else Many r), s'))"

section \<open>Input preconditions\<close>

text \<open>
  The loop of \<open>has\<close> (lines 85 to 104) over the port arguments, with the validation callback and
  the state it has captured. A name that the ports object answers with something that is not a
  port passes the guards of lines 88 and 96, and \<^verbatim>\<open>isAddressable()\<close> is then a TypeError.
\<close>

fun has_loop ::
  "'a ProcessInput \<Rightarrow> ('a, 'st) validator \<Rightarrow> 'st \<Rightarrow> portref list
     \<Rightarrow> (error + bool) \<times> 'a ProcessInput" where
  "has_loop s validate st [] = (Inr True, s)"
| "has_loop s validate st (Indexed name idx # rest) =
     (case ports s name of
        None \<Rightarrow>
          if inherited s name then (Inl TypeError, s)
          else (Inl (NoPort name), s)
      | Some p \<Rightarrow>
          if \<not> addressable p then (Inl NonAddressableAccess, s)
          else (case port_has p (scope s) (Some idx) validate st of
                  (False, st') \<Rightarrow> (Inr False, s)
                | (True, st') \<Rightarrow> has_loop s validate st' rest))"
| "has_loop s validate st (Name name # rest) =
     (case ports s name of
        None \<Rightarrow>
          if inherited s name then (Inl TypeError, s)
          else (Inl (NoPort name), s)
      | Some p \<Rightarrow>
          if addressable p then (Inl AddressableAccess, s)
          else (case port_has p (scope s) None validate st of
                  (False, st') \<Rightarrow> (Inr False, s)
                | (True, st') \<Rightarrow> has_loop s validate st' rest))"

text \<open>
  \<^verbatim>\<open>params.filter((p) => typeof p === 'string')\<close>: of the arguments, the plain names.
\<close>

fun strings :: "'f param list \<Rightarrow> portref list" where
  "strings [] = []"
| "strings (Port (Name n) # ps) = Name n # strings ps"
| "strings (Port (Indexed n i) # ps) = strings ps"
| "strings (Fun f # ps) = strings ps"

text \<open>
  \<^verbatim>\<open>typeof params[params.length - 1] === 'function'\<close>: the last argument when it is a function.
\<close>

fun trailing_fun :: "'f param list \<Rightarrow> 'f option" where
  "trailing_fun [] = None"
| "trailing_fun [Fun f] = Some f"
| "trailing_fun [Port r] = None"
| "trailing_fun (p # q # ps) = trailing_fun (q # ps)"

text \<open>
  A function argument of \<open>has\<close> is the validator with the state it has captured. With no trailing
  function the callback is \<^verbatim>\<open>() => true\<close>.
\<close>

definition has ::
  "'a ProcessInput \<Rightarrow> (('a, 'st) validator \<times> 'st) param list
     \<Rightarrow> (error + bool) \<times> 'a ProcessInput" where
  "has s params =
     (let args0 = strings params;
          args = (if args0 = [] then [Name ''in''] else args0)
      in case trailing_fun params of
           Some (validate, st) \<Rightarrow> has_loop s validate st args
         | None \<Rightarrow> has_loop s (\<lambda>st ip. (True, st)) () args)"

definition hasData ::
  "'a ProcessInput \<Rightarrow> (('a, unit) validator \<times> unit) param list
     \<Rightarrow> (error + bool) \<times> 'a ProcessInput" where
  "hasData s params =
     (let args = (if params = [] then [Port (Name ''in'')] else params);
          hasArgs = args @ [Fun (\<lambda>st ip. (ip_type ip = Data, st), ())]
      in has s hasArgs)"

text \<open>
  The callback that \<open>hasStream\<close> builds for one port (lines 143 to 163). It closes over
  \<^verbatim>\<open>portBrackets\<close> and the local flag \<^verbatim>\<open>hasData\<close> (here \<open>seen\<close>), both fresh for every
  port.
\<close>

definition stream_validate ::
  "('a IP \<Rightarrow> 'a list \<Rightarrow> bool) \<Rightarrow> ('a, 'a list \<times> bool) validator" where
  "stream_validate validateStream st ip =
     (case st of (portBrackets, seen) \<Rightarrow>
        (case ip_type ip of
           OpenBracket \<Rightarrow> (False, (portBrackets @ [ip_data ip], seen))
         | Data \<Rightarrow>
             (let seen' = validateStream ip portBrackets
              in (if portBrackets = [] then seen' else False, (portBrackets, seen')))
         | CloseBracket \<Rightarrow>
             (let portBrackets' = butlast portBrackets
              in (if portBrackets' \<noteq> [] then False
                  else if \<not> seen then False
                  else True, (portBrackets', seen)))))"

text \<open>
  The loop of \<open>hasStream\<close> (lines 139 to 165): \<^verbatim>\<open>this.has(port, validate)\<close> for each remaining
  argument. \<open>has\<close> looks only at the kind of an argument that is not the last one, so a function
  standing among the port arguments is handed on as some function.
\<close>

fun hasStream_loop ::
  "'a ProcessInput \<Rightarrow> ('a IP \<Rightarrow> 'a list \<Rightarrow> bool) \<Rightarrow> ('a IP \<Rightarrow> 'a list \<Rightarrow> bool) param list
     \<Rightarrow> (error + bool) \<times> 'a ProcessInput" where
  "hasStream_loop s validateStream [] = (Inr True, s)"
| "hasStream_loop s validateStream (port # rest) =
     (let validate = stream_validate validateStream
      in case has s [map_param (\<lambda>f. (stream_validate f, ([], False))) port,
                     Fun (validate, ([], False))] of
           (Inl e, s') \<Rightarrow> (Inl e, s')
         | (Inr False, s') \<Rightarrow> (Inr False, s')
         | (Inr True, s') \<Rightarrow> hasStream_loop s' validateStream rest)"

definition hasStream ::
  "'a ProcessInput \<Rightarrow> ('a IP \<Rightarrow> 'a list \<Rightarrow> bool) param list
     \<Rightarrow> (error + bool) \<times> 'a ProcessInput" where
  "hasStream s params =
     (let args = (if params = [] then [Port (Name ''in'')] else params)
      in case trailing_fun args of
           Some validateStream \<Rightarrow> hasStream_loop s validateStream (butlast args)
         | None \<Rightarrow> hasStream_loop s (\<lambda>ip brackets. True) args)"

section \<open>Input processing\<close>

text \<open>
  \<^verbatim>\<open>this.ports[port].get(this.scope, idx)\<close>; calling a method of a missing port, or of a value
  that is not a port, is a TypeError.
\<close>

definition ports_get ::
  "'a ProcessInput \<Rightarrow> string \<Rightarrow> nat option \<Rightarrow> (error + 'a IP option) \<times> 'a ProcessInput" where
  "ports_get s port idx =
     (case ports s port of
        None \<Rightarrow> (Inl TypeError, s)
      | Some p \<Rightarrow>
          (case port_get p (scope s) idx of
             (ip, p') \<Rightarrow> (Inr ip, s\<lparr>ports := (ports s)(port \<mapsto> p')\<rparr>)))"

text \<open>The number of packets waiting in one partition of a port: the measure of the read loops.\<close>

definition pending :: "'a ProcessInput \<Rightarrow> string \<Rightarrow> nat option \<Rightarrow> nat" where
  "pending s port idx =
     (case ports s port of None \<Rightarrow> 0 | Some p \<Rightarrow> length (buffer p (scope s, idx)))"

lemma ports_get_pending_le:
  "ports_get s port idx = (r, s') \<Longrightarrow> pending s' port idx \<le> pending s port idx"
  by (auto simp: ports_get_def port_get_def pending_def split: option.splits list.splits)

lemma ports_get_pending_less:
  "ports_get s port idx = (Inr (Some ip), s') \<Longrightarrow> pending s' port idx < pending s port idx"
  by (auto simp: ports_get_def port_get_def pending_def split: option.splits list.splits)

text \<open>
  The first loop of \<^verbatim>\<open>__getForForwarding\<close> (lines 219 to 232): read packets until a data
  packet or the end of the buffer, collecting the others in \<open>prefix\<close>.
\<close>

function read_until_data ::
  "'a ProcessInput \<Rightarrow> string \<Rightarrow> nat option \<Rightarrow> 'a IP list
     \<Rightarrow> (error + 'a IP list \<times> 'a IP option) \<times> 'a ProcessInput" where
  "read_until_data s port idx prefix =
     (case ports_get s port idx of
        (Inl e, s') \<Rightarrow> (Inl e, s')
      | (Inr None, s') \<Rightarrow> (Inr (prefix, None), s')
      | (Inr (Some ip), s') \<Rightarrow>
          if ip_type ip = Data then (Inr (prefix, Some ip), s')
          else read_until_data s' port idx (prefix @ [ip]))"
  by pat_completeness auto
termination
  by (relation "measure (\<lambda>(s, port, idx, prefix). pending s port idx)")
     (auto dest: ports_get_pending_less [OF sym])

declare read_until_data.simps [simp del]

text \<open>
  Modelled from the spec: \<^verbatim>\<open>nodeInstance.getBracketContext('in', port, scope, idx)\<close> hands out
  the live stack of the key.
\<close>

definition getBracketContext :: "'a ProcessInput \<Rightarrow> string \<Rightarrow> nat option \<Rightarrow> ref list" where
  "getBracketContext s port idx = bracketContext (nodeInstance s) (port, scope s, idx)"

text \<open>
  Modelled from the spec: the stack handed out is mutable; this is the effect of a \<^verbatim>\<open>push\<close> or
  \<^verbatim>\<open>pop\<close> on the live stack of the key.
\<close>

definition setBracketContext ::
  "'a ProcessInput \<Rightarrow> string \<Rightarrow> nat option \<Rightarrow> ref list \<Rightarrow> 'a ProcessInput" where
  "setBracketContext s port idx stack =
     s\<lparr>nodeInstance := (nodeInstance s)
         \<lparr>bracketContext := (bracketContext (nodeInstance s))((port, scope s, idx) := stack)\<rparr>\<rparr>"

text \<open>
  The second loop of \<^verbatim>\<open>__getForForwarding\<close> (lines 237 to 253). \<^verbatim>\<open>pop()\<close> of an empty array
  returns \<^verbatim>\<open>undefined\<close>, and the assignment \<^verbatim>\<open>context.closeIp = ip\<close> that follows is then a
  TypeError; \<^verbatim>\<open>__bracketClosingBefore\<close> has been initialised by then. A stack holds addresses
  of contexts that were allocated by an earlier push, so the address popped lies in the store.
\<close>

fun forward_prefix ::
  "'a ProcessInput \<Rightarrow> string \<Rightarrow> nat option \<Rightarrow> 'a IP list \<Rightarrow> (error + unit) \<times> 'a ProcessInput" where
  "forward_prefix s port idx [] = (Inr (), s)"
| "forward_prefix s port idx (ip # rest) =
     (case ip_type ip of
        CloseBracket \<Rightarrow>
          (let s1 = (if bracketClosingBefore (result s) = None
                     then s\<lparr>result := (result s)\<lparr>bracketClosingBefore := Some []\<rparr>\<rparr> else s);
               stack = getBracketContext s1 port idx
           in if stack = [] then (Inl TypeError, s1)
              else
                (let context = last stack;
                     s2 = setBracketContext s1 port idx (butlast stack);
                     s3 = s2\<lparr>store := (store s2)
                            [context := (store s2 ! context)\<lparr>br_closeIp := Some ip\<rparr>]\<rparr>;
                     closing = (case bracketClosingBefore (result s3) of None \<Rightarrow> [] | Some l \<Rightarrow> l);
                     s4 = s3\<lparr>result := (result s3)\<lparr>bracketClosingBefore := Some (closing @ [context])\<rparr>\<rparr>
                 in forward_prefix s4 port idx rest))
      | OpenBracket \<Rightarrow>
          (let context = length (store s);
               s1 = s\<lparr>store := store s @
                      [\<lparr>br_ip = ip, br_ports = [], br_source = port, br_closeIp = None\<rparr>]\<rparr>;
               s2 = setBracketContext s1 port idx (getBracketContext s1 port idx @ [context])
           in forward_prefix s2 port idx rest)
      | Data \<Rightarrow> forward_prefix s port idx rest)"

text \<open>
  \<^verbatim>\<open>__getForForwarding(port, idx)\<close>. The snapshot is \<^verbatim>\<open>slice(0)\<close> of the live stack: a new array
  with the same context addresses. \<open>None\<close> is the \<^verbatim>\<open>null\<close> returned when no data packet was
  found.
\<close>

definition getForForwarding ::
  "'a ProcessInput \<Rightarrow> string \<Rightarrow> nat option \<Rightarrow> (error + 'a IP option) \<times> 'a ProcessInput" where
  "getForForwarding s port idx =
     (case read_until_data s port idx [] of
        (Inl e, s1) \<Rightarrow> (Inl e, s1)
      | (Inr (prefix, dataIp), s1) \<Rightarrow>
          (case forward_prefix s1 port idx prefix of
             (Inl e, s2) \<Rightarrow> (Inl e, s2)
           | (Inr u, s2) \<Rightarrow>
               (let ctx = (case resBracketContext (result s2) of None \<Rightarrow> Map.empty | Some m \<Rightarrow> m);
                    s3 = s2\<lparr>result := (result s2)
                           \<lparr>resBracketContext := Some (ctx(port \<mapsto> getBracketContext s2 port idx))\<rparr>\<rparr>
                in (Inr dataIp, s3))))"

text \<open>
  The body of the loop of \<open>get\<close> for one port argument (lines 184 to 205). There is no guard
  on the lookup: \<^verbatim>\<open>isAddressable()\<close> is called on whatever \<^verbatim>\<open>this.ports[portname]\<close> is, a
  TypeError for every name that is not a registered port.
\<close>

definition fetch ::
  "'a ProcessInput \<Rightarrow> string \<Rightarrow> nat option \<Rightarrow> (error + 'a IP option) \<times> 'a ProcessInput" where
  "fetch s portname idx =
     (if isForwardingInport (nodeInstance s) portname
      then getForForwarding s portname idx
      else ports_get s portname idx)"

fun get_port ::
  "'a ProcessInput \<Rightarrow> portref \<Rightarrow> (error + 'a IP option) \<times> 'a ProcessInput" where
  "get_port s (Indexed portname idx) =
     (case ports s portname of
        None \<Rightarrow> (Inl TypeError, s)
      | Some p \<Rightarrow>
          if \<not> addressable p then (Inl NonAddressableAccess, s)
          else fetch s portname (Some idx))"
| "get_port s (Name portname) =
     (case ports s portname of
        None \<Rightarrow> (Inl TypeError, s)
      | Some p \<Rightarrow>
          if addressable p then (Inl AddressableAccess, s)
          else fetch s portname None)"

fun get_loop ::
  "'a ProcessInput \<Rightarrow> 'a IP option list \<Rightarrow> portref list
     \<Rightarrow> (error + 'a IP option list) \<times> 'a ProcessInput" where
  "get_loop s acc [] = (Inr acc, s)"
| "get_loop s acc (port # rest) =
     (case get_port s port of
        (Inl e, s') \<Rightarrow> (Inl e, s')
      | (Inr ip, s') \<Rightarrow> get_loop s' (acc @ [ip]) rest)"

definition get ::
  "'a ProcessInput \<Rightarrow> portref list \<Rightarrow> (error + 'a IP option ret) \<times> 'a ProcessInput" where
  "get s params =
     (let s0 = activate s;
          args = (if params = [] then [Name ''in''] else params)
      in case get_loop s0 [] args of
           (Inl e, s') \<Rightarrow> (Inl e, s')
         | (Inr r, s') \<Rightarrow> (Inr (if length args = 1 then One (hd r) else Many r), s'))"

subsection \<open>What a read leaves in the buffers\<close>


lemma setBracketContext_frame [simp]:
  "ports (setBracketContext s port idx st) = ports s"
  "scope (setBracketContext s port idx st) = scope s"
  "activated (setBracketContext s port idx st) = activated s"
  "result (setBracketContext s port idx st) = result s"
  "store (setBracketContext s port idx st) = store s"
  "load (nodeInstance (setBracketContext s port idx st)) = load (nodeInstance s)"
  "isOrdered (nodeInstance (setBracketContext s port idx st)) = isOrdered (nodeInstance s)"
  "isForwardingInport (nodeInstance (setBracketContext s port idx st)) = isForwardingInport (nodeInstance s)"
  by (simp_all add: setBracketContext_def)

lemma forward_prefix_ports:
  "forward_prefix s port idx prefix = (r, s') \<Longrightarrow> ports s' = ports s \<and> scope s' = scope s"
proof (induction prefix arbitrary: s)
  case Nil
  then show ?case by simp
next
  case (Cons ip rest)
  show ?case
  proof (cases "ip_type ip")
    case Data
    with Cons show ?thesis by simp
  next
    case OpenBracket
    with Cons.prems Cons.IH show ?thesis
      by (fastforce simp: Let_def)
  next
    case CloseBracket
    with Cons.prems Cons.IH show ?thesis
      by (fastforce simp: Let_def split: if_splits)
  qed
qed

lemma ports_get_scope:
  "ports_get s port idx = (r, s') \<Longrightarrow> scope s' = scope s"
  by (auto simp: ports_get_def split: option.splits prod.splits)

lemma read_until_data_scope:
  "read_until_data s port idx prefix = (r, s') \<Longrightarrow> scope s' = scope s"
proof (induction s port idx prefix rule: read_until_data.induct)
  case (1 s port idx prefix)
  then show ?case
    by (subst (asm) (2) read_until_data.simps)
       (auto split: prod.splits sum.splits option.splits if_splits dest: ports_get_scope)
qed

lemma read_until_data_pending_le:
  "read_until_data s port idx prefix = (r, s') \<Longrightarrow> pending s' port idx \<le> pending s port idx"
proof (induction s port idx prefix rule: read_until_data.induct)
  case (1 s port idx prefix)
  then show ?case
    by (subst (asm) (2) read_until_data.simps)
       (fastforce split: prod.splits sum.splits option.splits if_splits dest: ports_get_pending_le)
qed

lemma read_until_data_pending_less:
  "read_until_data s port idx prefix = (Inr (pre, Some ip), s')
     \<Longrightarrow> pending s' port idx < pending s port idx"
proof (induction s port idx prefix rule: read_until_data.induct)
  case (1 s port idx prefix)
  then show ?case
    by (subst (asm) (2) read_until_data.simps)
       (fastforce split: prod.splits sum.splits option.splits if_splits dest: ports_get_pending_less)
qed


lemma pending_cong:
  "ports s' = ports s \<Longrightarrow> scope s' = scope s \<Longrightarrow> pending s' port idx = pending s port idx"
  by (simp add: pending_def split: option.splits)

lemma getForForwarding_read:
  assumes "getForForwarding s port idx = (r, s')"
  obtains r1 s1 where "read_until_data s port idx [] = (r1, s1)"
    and "ports s' = ports s1" and "scope s' = scope s1"
    and "\<And>ip. r = Inr (Some ip) \<Longrightarrow> \<exists>pre. r1 = Inr (pre, Some ip)"
proof -
  obtain r1 s1 where rd: "read_until_data s port idx [] = (r1, s1)"
    by (cases "read_until_data s port idx []")
  show thesis
  proof (cases r1)
    case (Inl e)
    with rd assms have "s' = s1" "r = Inl e"
      by (auto simp: getForForwarding_def)
    with rd Inl show thesis by (intro that [of r1 s1]) auto
  next
    case (Inr pd)
    obtain pre dataIp where pd: "pd = (pre, dataIp)" by (cases pd)
    obtain r2 s2 where fp: "forward_prefix s1 port idx pre = (r2, s2)"
      by (cases "forward_prefix s1 port idx pre")
    from fp have keep: "ports s2 = ports s1" "scope s2 = scope s1"
      by (auto dest: forward_prefix_ports)
    from assms rd Inr pd fp have "ports s' = ports s2 \<and> scope s' = scope s2
        \<and> (\<forall>ip. r = Inr (Some ip) \<longrightarrow> dataIp = Some ip)"
      by (cases r2) (auto simp: getForForwarding_def Let_def)
    with keep rd Inr pd show thesis by (intro that [of r1 s1]) auto
  qed
qed

lemma getForForwarding_scope:
  assumes "getForForwarding s port idx = (r, s')"
  shows "scope s' = scope s"
  using assms by (elim getForForwarding_read) (auto dest: read_until_data_scope)

lemma getForForwarding_pending_le:
  assumes "getForForwarding s port idx = (r, s')"
  shows "pending s' port idx \<le> pending s port idx"
proof -
  from assms obtain r1 s1 where rd: "read_until_data s port idx [] = (r1, s1)"
    and eq: "ports s' = ports s1" "scope s' = scope s1"
    by (elim getForForwarding_read)
  from eq have "pending s' port idx = pending s1 port idx" by (rule pending_cong)
  with read_until_data_pending_le [OF rd] show ?thesis by simp
qed

lemma getForForwarding_pending_less:
  assumes "getForForwarding s port idx = (Inr (Some ip), s')"
  shows "pending s' port idx < pending s port idx"
proof -
  from assms obtain r1 s1 where rd: "read_until_data s port idx [] = (r1, s1)"
    and eq: "ports s' = ports s1" "scope s' = scope s1"
    and dat: "\<exists>pre. r1 = Inr (pre, Some ip)"
    by (elim getForForwarding_read) auto
  from eq have "pending s' port idx = pending s1 port idx" by (rule pending_cong)
  with dat rd read_until_data_pending_less show ?thesis by fastforce
qed

lemma fetch_scope: "fetch s port idx = (r, s') \<Longrightarrow> scope s' = scope s"
  by (auto simp: fetch_def split: if_splits dest: getForForwarding_scope ports_get_scope)

lemma fetch_pending_le:
  "fetch s port idx = (r, s') \<Longrightarrow> pending s' port idx \<le> pending s port idx"
  by (auto simp: fetch_def split: if_splits dest: getForForwarding_pending_le ports_get_pending_le)

lemma fetch_pending_less:
  "fetch s port idx = (Inr (Some ip), s') \<Longrightarrow> pending s' port idx < pending s port idx"
  by (auto simp: fetch_def split: if_splits
           dest: getForForwarding_pending_less ports_get_pending_less)

text \<open>The packets waiting for one port argument.\<close>

fun waiting :: "'a ProcessInput \<Rightarrow> portref \<Rightarrow> nat" where
  "waiting s (Name n) = pending s n None"
| "waiting s (Indexed n i) = pending s n (Some i)"

lemma get_port_waiting_le:
  "get_port s port = (r, s') \<Longrightarrow> waiting s' port \<le> waiting s port"
  by (cases port) (auto split: option.splits if_splits dest: fetch_pending_le)

lemma get_port_waiting_less:
  "get_port s port = (Inr (Some ip), s') \<Longrightarrow> waiting s' port < waiting s port"
  by (cases port) (auto split: option.splits if_splits dest: fetch_pending_less)

lemma activate_frame [simp]:
  "ports (activate s) = ports s"
  "scope (activate s) = scope s"
  "store (activate s) = store s"
  "activated (activate s) = True"
  "isOrdered (nodeInstance (activate s)) = isOrdered (nodeInstance s)"
  "isForwardingInport (nodeInstance (activate s)) = isForwardingInport (nodeInstance s)"
  "bracketContext (nodeInstance (activate s)) = bracketContext (nodeInstance s)"
  by (simp_all add: activate_def node_activate_def)

lemma waiting_activate [simp]: "waiting (activate s) port = waiting s port"
  by (cases port) (simp_all add: pending_cong [of "activate s" s])

lemma get_single:
  "get s [port] =
     (case get_port (activate s) port of
        (Inl e, s') \<Rightarrow> (Inl e, s')
      | (Inr ip, s') \<Rightarrow> (Inr (One ip), s'))"
  by (simp add: get_def split: prod.splits sum.splits)

lemma get_single_waiting_le:
  assumes "get s [port] = (r, s')"
  shows "waiting s' port \<le> waiting s port"
proof -
  obtain r1 s1 where gp: "get_port (activate s) port = (r1, s1)"
    by (cases "get_port (activate s) port")
  with assms have "s' = s1"
    by (simp add: get_single split: sum.splits)
  with get_port_waiting_le [OF gp] show ?thesis by simp
qed

lemma get_single_waiting_less:
  assumes "get s [port] = (Inr (One (Some ip)), s')"
  shows "waiting s' port < waiting s port"
proof -
  obtain r1 s1 where gp: "get_port (activate s) port = (r1, s1)"
    by (cases "get_port (activate s) port")
  with assms have "s' = s1" "r1 = Inr (Some ip)"
    by (simp_all add: get_single split: sum.splits)
  with get_port_waiting_less [of "activate s" port ip s1] gp show ?thesis by simp
qed

lemma get_single_One:
  "get s [port] = (Inr r, s') \<Longrightarrow> \<exists>ip. r = One ip"
  by (auto simp: get_single split: prod.splits sum.splits)


text \<open>
  The value of \<^verbatim>\<open>this.get(port)\<close>: a call with one argument returns \<^verbatim>\<open>res[0]\<close>, never the
  array.
\<close>

fun single :: "'b option ret \<Rightarrow> 'b option" where
  "single (One x) = x"
| "single (Many xs) = None"

definition get_one ::
  "'a ProcessInput \<Rightarrow> portref \<Rightarrow> (error + 'a IP option) \<times> 'a ProcessInput" where
  "get_one s port =
     (case get s [port] of
        (Inl e, s') \<Rightarrow> (Inl e, s')
      | (Inr r, s') \<Rightarrow> (Inr (single r), s'))"

lemma get_one_eq: "get_one s port = get_port (activate s) port"
  by (simp add: get_one_def get_single split: prod.splits sum.splits)

lemma get_one_waiting_le:
  "get_one s port = (r, s') \<Longrightarrow> waiting s' port \<le> waiting s port"
  using get_port_waiting_le [of "activate s" port r s'] by (simp add: get_one_eq)

lemma get_one_waiting_less:
  "get_one s port = (Inr (Some ip), s') \<Longrightarrow> waiting s' port < waiting s port"
  using get_port_waiting_less [of "activate s" port ip s'] by (simp add: get_one_eq)

lemma get_one_next:
  assumes "get_one s port = (Inr next_ip, s')"
  shows "waiting s' port + (if next_ip = None then 0 else 1) < Suc (waiting s port)"
proof (cases next_ip)
  case None
  with get_one_waiting_le [OF assms] show ?thesis by simp
next
  case (Some ip)
  with get_one_waiting_less [of s port ip s'] assms show ?thesis by simp
qed

text \<open>
  The loop of \<open>getData\<close> (lines 283 to 286): read on while the packet is not a data packet;
  \<open>None\<close> is the \<^verbatim>\<open>undefined\<close> that ends it at \<^verbatim>\<open>break\<close>.
\<close>

function getData_while ::
  "'a ProcessInput \<Rightarrow> portref \<Rightarrow> 'a IP \<Rightarrow> (error + 'a IP option) \<times> 'a ProcessInput" where
  "getData_while s port packet =
     (if ip_type packet \<noteq> Data then
        (case get_one s port of
           (Inl e, s') \<Rightarrow> (Inl e, s')
         | (Inr None, s') \<Rightarrow> (Inr None, s')
         | (Inr (Some ip), s') \<Rightarrow> getData_while s' port ip)
      else (Inr (Some packet), s))"
  by pat_completeness auto
termination
  by (relation "measure (\<lambda>(s, port, packet). waiting s port)")
     (auto dest: get_one_waiting_less [OF sym])

declare getData_while.simps [simp del]

text \<open>
  The callback of \<^verbatim>\<open>args.forEach\<close> in \<open>getData\<close> (lines 274 to 288). After the loop
  \<^verbatim>\<open>packet.data\<close> is read, which is a TypeError when the loop ended on \<^verbatim>\<open>undefined\<close>.
\<close>

definition getData_port ::
  "'a ProcessInput \<Rightarrow> portref \<Rightarrow> (error + 'a option) \<times> 'a ProcessInput" where
  "getData_port s port =
     (case get_one s port of
        (Inl e, s1) \<Rightarrow> (Inl e, s1)
      | (Inr None, s1) \<Rightarrow> (Inr None, s1)
      | (Inr (Some packet), s1) \<Rightarrow>
          (case getData_while s1 port packet of
             (Inl e, s2) \<Rightarrow> (Inl e, s2)
           | (Inr None, s2) \<Rightarrow> (Inl TypeError, s2)
           | (Inr (Some p), s2) \<Rightarrow> (Inr (Some (ip_data p)), s2)))"

fun getData_each ::
  "'a ProcessInput \<Rightarrow> 'a option list \<Rightarrow> portref list
     \<Rightarrow> (error + 'a option list) \<times> 'a ProcessInput" where
  "getData_each s datas [] = (Inr datas, s)"
| "getData_each s datas (port # rest) =
     (case getData_port s port of
        (Inl e, s') \<Rightarrow> (Inl e, s')
      | (Inr d, s') \<Rightarrow> getData_each s' (datas @ [d]) rest)"

text \<open>\<^verbatim>\<open>datas.pop()\<close>: the last element, \<^verbatim>\<open>undefined\<close> for an empty array.\<close>

definition pop :: "'b option list \<Rightarrow> 'b option" where
  "pop datas = (if datas = [] then None else last datas)"

definition getData ::
  "'a ProcessInput \<Rightarrow> portref list \<Rightarrow> (error + 'a option ret) \<times> 'a ProcessInput" where
  "getData s params =
     (let args = (if params = [] then [Name ''in''] else params)
      in case getData_each s [] args of
           (Inl e, s') \<Rightarrow> (Inl e, s')
         | (Inr datas, s') \<Rightarrow> (Inr (if length args = 1 then One (pop datas) else Many datas), s'))"

text \<open>
  One pass through the body of the loop of \<open>getStream\<close> (lines 311 to 333): the new
  \<^verbatim>\<open>portBrackets\<close>, \<^verbatim>\<open>portPackets\<close> and \<^verbatim>\<open>hasData\<close> (here \<open>seen\<close>), and whether the pass ends
  in \<^verbatim>\<open>break\<close>.
\<close>

definition stream_step ::
  "'a list \<Rightarrow> 'a IP list \<Rightarrow> bool \<Rightarrow> 'a IP \<Rightarrow> 'a list \<times> 'a IP list \<times> bool \<times> bool" where
  "stream_step portBrackets portPackets seen ip =
     (case ip_type ip of
        OpenBracket \<Rightarrow>
          (if portBrackets = []
           then (portBrackets @ [ip_data ip], [] @ [ip], False, False)
           else (portBrackets @ [ip_data ip], portPackets @ [ip], seen, False))
      | Data \<Rightarrow> (portBrackets, portPackets @ [ip], True, portBrackets = [])
      | CloseBracket \<Rightarrow>
          (butlast portBrackets, portPackets @ [ip], seen, seen \<and> butlast portBrackets = []))"

function getStream_while ::
  "'a ProcessInput \<Rightarrow> portref \<Rightarrow> 'a list \<Rightarrow> 'a IP list \<Rightarrow> bool \<Rightarrow> 'a IP option
     \<Rightarrow> (error + 'a IP list) \<times> 'a ProcessInput" where
  "getStream_while s port portBrackets portPackets seen None = (Inr portPackets, s)"
| "getStream_while s port portBrackets portPackets seen (Some ip) =
     (case stream_step portBrackets portPackets seen ip of
        (brackets', packets', seen', stop) \<Rightarrow>
          if stop then (Inr packets', s)
          else (case get_one s port of
                  (Inl e, s') \<Rightarrow> (Inl e, s')
                | (Inr next_ip, s') \<Rightarrow> getStream_while s' port brackets' packets' seen' next_ip))"
  by pat_completeness auto
termination
  by (relation "measure (\<lambda>(s, port, b, pk, sn, ip). waiting s port + (if ip = None then 0 else 1))")
     (auto dest: get_one_next [OF sym])

declare getStream_while.simps [simp del]

text \<open>
  The body of the outer loop of \<open>getStream\<close> for one port (lines 304 to 336). With an empty
  buffer both \<^verbatim>\<open>undefined\<close> and the empty packet list are pushed.
\<close>

definition getStream_port ::
  "'a ProcessInput \<Rightarrow> 'a IP list option list \<Rightarrow> portref
     \<Rightarrow> (error + 'a IP list option list) \<times> 'a ProcessInput" where
  "getStream_port s datas port =
     (case get_one s port of
        (Inl e, s1) \<Rightarrow> (Inl e, s1)
      | (Inr ip, s1) \<Rightarrow>
          (let datas1 = (if ip = None then datas @ [None] else datas)
           in case getStream_while s1 port [] [] False ip of
                (Inl e, s2) \<Rightarrow> (Inl e, s2)
              | (Inr portPackets, s2) \<Rightarrow> (Inr (datas1 @ [Some portPackets]), s2)))"

fun getStream_loop ::
  "'a ProcessInput \<Rightarrow> 'a IP list option list \<Rightarrow> portref list
     \<Rightarrow> (error + 'a IP list option list) \<times> 'a ProcessInput" where
  "getStream_loop s datas [] = (Inr datas, s)"
| "getStream_loop s datas (port # rest) =
     (case getStream_port s datas port of
        (Inl e, s') \<Rightarrow> (Inl e, s')
      | (Inr datas', s') \<Rightarrow> getStream_loop s' datas' rest)"

definition getStream ::
  "'a ProcessInput \<Rightarrow> portref list \<Rightarrow> (error + 'a IP list option ret) \<times> 'a ProcessInput" where
  "getStream s params =
     (let args = (if params = [] then [Name ''in''] else params)
      in case getStream_loop s [] args of
           (Inl e, s') \<Rightarrow> (Inl e, s')
         | (Inr datas, s') \<Rightarrow> (Inr (if length args = 1 then One (pop datas) else Many datas), s'))"

section \<open>Facts about the forwarding read\<close>



text \<open>The packets that the forwarding read collects before the data packet.\<close>

abbreviation (input) notData :: "'a IP \<Rightarrow> bool" where
  "notData \<equiv> (\<lambda>ip. ip_type ip \<noteq> Data)"

text \<open>The gateway after one partition of a port has been cut down to \<open>rest\<close>.\<close>

definition dequeued :: "'a ProcessInput \<Rightarrow> string \<Rightarrow> nat option \<Rightarrow> 'a InPort \<Rightarrow> 'a IP list \<Rightarrow> 'a ProcessInput" where
  "dequeued s port idx p rest =
     s\<lparr>ports := (ports s)(port \<mapsto> p\<lparr>buffer := (buffer p)((scope s, idx) := rest)\<rparr>)\<rparr>"

lemma dequeued_same:
  "ports s port = Some p \<Longrightarrow> buffer p (scope s, idx) = buf \<Longrightarrow> dequeued s port idx p buf = s"
  by (auto simp: dequeued_def map_upd_triv)

lemma dequeued_frame [simp]:
  "scope (dequeued s port idx p rest) = scope s"
  "nodeInstance (dequeued s port idx p rest) = nodeInstance s"
  "activated (dequeued s port idx p rest) = activated s"
  "result (dequeued s port idx p rest) = result s"
  "store (dequeued s port idx p rest) = store s"
  "ports (dequeued s port idx p rest) port = Some (p\<lparr>buffer := (buffer p)((scope s, idx) := rest)\<rparr>)"
  by (simp_all add: dequeued_def)

lemma dequeued_twice [simp]:
  "dequeued (dequeued s port idx p rest) port idx (p\<lparr>buffer := (buffer p)((scope s, idx) := rest)\<rparr>) rest'
     = dequeued s port idx p rest'"
  by (simp add: dequeued_def)

lemma ports_get_Cons:
  "ports s port = Some p \<Longrightarrow> buffer p (scope s, idx) = ip # rest
     \<Longrightarrow> ports_get s port idx = (Inr (Some ip), dequeued s port idx p rest)"
  by (simp add: ports_get_def port_get_def dequeued_def)

lemma ports_get_Nil:
  "ports s port = Some p \<Longrightarrow> buffer p (scope s, idx) = []
     \<Longrightarrow> ports_get s port idx = (Inr None, s)"
  by (simp add: ports_get_def port_get_def map_upd_triv)

lemma read_until_data_buffer:
  assumes "ports s port = Some p" and "buffer p (scope s, idx) = buf"
  shows "read_until_data s port idx pre =
           (Inr (pre @ takeWhile notData buf,
                 (case dropWhile notData buf of [] \<Rightarrow> None | ip # rest \<Rightarrow> Some ip)),
            dequeued s port idx p (tl (dropWhile notData buf)))"
  using assms
proof (induction buf arbitrary: s p pre)
  case Nil
  then show ?case
    by (subst read_until_data.simps) (simp add: ports_get_Nil dequeued_same)
next
  case (Cons ip rest)
  let ?s1 = "dequeued s port idx p rest"
  let ?p1 = "p\<lparr>buffer := (buffer p)((scope s, idx) := rest)\<rparr>"
  have get: "ports_get s port idx = (Inr (Some ip), ?s1)"
    using Cons.prems by (rule ports_get_Cons)
  show ?case
  proof (cases "ip_type ip = Data")
    case True
    with get show ?thesis
      by (subst read_until_data.simps) simp
  next
    case False
    have "read_until_data ?s1 port idx (pre @ [ip]) =
           (Inr ((pre @ [ip]) @ takeWhile notData rest,
                 (case dropWhile notData rest of [] \<Rightarrow> None | ip # rest \<Rightarrow> Some ip)),
            dequeued ?s1 port idx ?p1 (tl (dropWhile notData rest)))"
      by (rule Cons.IH) simp_all
    with get False show ?thesis
      by (subst read_until_data.simps) simp
  qed
qed


text \<open>
  Whether a run of bracket packets closes a bracket while none is open, starting from a stack
  of the given depth.
\<close>

fun underflow :: "nat \<Rightarrow> 'a IP list \<Rightarrow> bool" where
  "underflow depth [] = False"
| "underflow depth (ip # rest) =
     (case ip_type ip of
        CloseBracket \<Rightarrow> (if depth = 0 then True else underflow (depth - 1) rest)
      | OpenBracket \<Rightarrow> underflow (Suc depth) rest
      | Data \<Rightarrow> underflow depth rest)"

lemma getBracketContext_set [simp]:
  "getBracketContext (setBracketContext s port idx stack) port idx = stack"
  by (simp add: getBracketContext_def setBracketContext_def)

lemma getBracketContext_upd [simp]:
  "getBracketContext (s\<lparr>result := r\<rparr>) port idx = getBracketContext s port idx"
  "getBracketContext (s\<lparr>store := st\<rparr>) port idx = getBracketContext s port idx"
  "getBracketContext (s\<lparr>ports := ps\<rparr>) port idx = getBracketContext s port idx"
  by (simp_all add: getBracketContext_def)

lemma forward_prefix_error:
  "fst (forward_prefix s port idx prefix) =
     (if underflow (length (getBracketContext s port idx)) prefix then Inl TypeError else Inr ())"
proof (induction prefix arbitrary: s)
  case Nil
  show ?case by simp
next
  case (Cons ip rest)
  show ?case
  proof (cases "ip_type ip")
    case Data
    then show ?thesis by (simp add: Cons.IH)
  next
    case OpenBracket
    then show ?thesis by (simp add: Cons.IH Let_def)
  next
    case CloseBracket
    then show ?thesis by (simp add: Cons.IH Let_def)
  qed
qed

text \<open>What a read never touches once the invocation is activated.\<close>

definition same_invocation :: "'a ProcessInput \<Rightarrow> 'a ProcessInput \<Rightarrow> bool" where
  "same_invocation s s' =
     (activated s' = activated s \<and> load (nodeInstance s') = load (nodeInstance s)
      \<and> isOrdered (nodeInstance s') = isOrdered (nodeInstance s)
      \<and> isForwardingInport (nodeInstance s') = isForwardingInport (nodeInstance s)
      \<and> resolved (result s') = resolved (result s) \<and> scope s' = scope s)"

lemma same_invocation_refl [simp]: "same_invocation s s"
  by (simp add: same_invocation_def)

lemma same_invocation_trans:
  "same_invocation s s1 \<Longrightarrow> same_invocation s1 s2 \<Longrightarrow> same_invocation s s2"
  by (simp add: same_invocation_def)



lemma forward_prefix_same:
  "forward_prefix s port idx prefix = (r, s') \<Longrightarrow> same_invocation s s'"
proof (induction prefix arbitrary: s)
  case Nil
  then show ?case by simp
next
  case (Cons ip rest)
  show ?case
  proof (cases "ip_type ip")
    case Data
    with Cons show ?thesis by simp
  next
    case OpenBracket
    with Cons.prems obtain s2 where "forward_prefix s2 port idx rest = (r, s')"
      and "same_invocation s s2"
      by (simp add: Let_def same_invocation_def)
    with Cons.IH show ?thesis by (blast intro: same_invocation_trans)
  next
    case CloseBracket
    show ?thesis
    proof (cases "getBracketContext s port idx = []")
      case True
      with CloseBracket Cons.prems show ?thesis
        by (auto simp: Let_def same_invocation_def split: if_splits)
    next
      case False
      with CloseBracket Cons.prems obtain s4 where "forward_prefix s4 port idx rest = (r, s')"
        and "same_invocation s s4"
        by (auto simp: Let_def same_invocation_def split: if_splits)
      with Cons.IH show ?thesis by (blast intro: same_invocation_trans)
    qed
  qed
qed


lemma getBracketContext_dequeued [simp]:
  "getBracketContext (dequeued s port idx p rest) port' idx' = getBracketContext s port' idx'"
  by (simp add: getBracketContext_def)

lemma getBracketContext_activate [simp]:
  "getBracketContext (activate s) port idx = getBracketContext s port idx"
  by (simp add: getBracketContext_def)

lemma getForForwarding_buffer:
  assumes "ports s port = Some p" and "buffer p (scope s, idx) = buf"
  shows "getForForwarding s port idx =
    (case forward_prefix (dequeued s port idx p (tl (dropWhile notData buf))) port idx
            (takeWhile notData buf) of
       (Inl e, s2) \<Rightarrow> (Inl e, s2)
     | (Inr u, s2) \<Rightarrow>
         (Inr (case dropWhile notData buf of [] \<Rightarrow> None | ip # rest \<Rightarrow> Some ip),
          s2\<lparr>result := (result s2)\<lparr>resBracketContext :=
                Some ((case resBracketContext (result s2) of None \<Rightarrow> Map.empty | Some m \<Rightarrow> m)
                      (port \<mapsto> getBracketContext s2 port idx))\<rparr>\<rparr>))"
  by (simp add: getForForwarding_def read_until_data_buffer [OF assms] Let_def
           split: prod.splits sum.splits)

text \<open>The port argument for a name and an optional index.\<close>

fun portref_of :: "string \<Rightarrow> nat option \<Rightarrow> portref" where
  "portref_of n None = Name n"
| "portref_of n (Some i) = Indexed n i"

lemma get_port_fetch:
  "ports s n = Some p \<Longrightarrow> addressable p = (idx \<noteq> None)
     \<Longrightarrow> get_port s (portref_of n idx) = fetch s n idx"
  by (cases idx) simp_all

lemma waiting_portref_of [simp]: "waiting s (portref_of n idx) = pending s n idx"
  by (cases idx) simp_all

subsection \<open>What a read leaves of the invocation\<close>








subsection \<open>What a precondition check leaves of the gateway\<close>

lemma has_loop_state: "snd (has_loop s validate st args) = s"
  by (induction s validate st args rule: has_loop.induct)
     (auto split: option.splits prod.splits bool.splits)

lemma has_state: "snd (has s params) = s"
  by (cases "trailing_fun params")
     (auto simp: has_def Let_def has_loop_state simp del: has_loop.simps)

lemma hasData_state: "snd (hasData s params) = s"
  by (simp add: hasData_def Let_def has_state)

lemma hasStream_loop_state: "snd (hasStream_loop s validateStream args) = s"
proof (induction args)
  case Nil
  show ?case by simp
next
  case (Cons port rest)
  let ?h = "has s [map_param (\<lambda>f. (stream_validate f, ([], False))) port,
                     Fun (stream_validate validateStream, ([], False))]"
  have "snd ?h = s" by (rule has_state)
  then obtain r where h: "?h = (r, s)" by (cases ?h) simp
  show ?case
    using h Cons.IH by (cases r) (simp_all add: Let_def split: bool.splits)
qed

lemma hasStream_state: "snd (hasStream s params) = s"
  by (cases "trailing_fun (if params = [] then [Port (Name ''in'')] else params)")
     (simp_all add: hasStream_def Let_def hasStream_loop_state del: hasStream_loop.simps)

subsection \<open>Reads that find data first\<close>

lemma fetch_data_first:
  assumes "ports s n = Some p" and "buffer p (scope s, idx) = ip # rest" and "ip_type ip = Data"
  shows "\<exists>s'. fetch s n idx = (Inr (Some ip), s') \<and> pending s' n idx = length rest"
proof (cases "isForwardingInport (nodeInstance s) n")
  case False
  with assms show ?thesis
    by (simp add: fetch_def ports_get_Cons pending_def)
next
  case True
  with assms show ?thesis
    by (simp add: fetch_def getForForwarding_buffer [OF assms(1,2)] pending_def)
qed

subsection \<open>Ports keep their kind\<close>

text \<open>Which ports are registered, and whether they are addressable.\<close>

definition addressing :: "'a ProcessInput \<Rightarrow> string \<Rightarrow> bool option" where
  "addressing s n = map_option addressable (ports s n)"

lemma addressing_ports: "ports s' = ports s \<Longrightarrow> addressing s' = addressing s"
  by (simp add: addressing_def fun_eq_iff)

lemma ports_get_addressing: "ports_get s port idx = (r, s') \<Longrightarrow> addressing s' = addressing s"
  by (auto simp: ports_get_def port_get_def addressing_def fun_eq_iff
           split: option.splits list.splits)

lemma read_until_data_addressing:
  "read_until_data s port idx prefix = (r, s') \<Longrightarrow> addressing s' = addressing s"
proof (induction s port idx prefix rule: read_until_data.induct)
  case (1 s port idx prefix)
  obtain r1 s1 where g: "ports_get s port idx = (r1, s1)"
    by (cases "ports_get s port idx")
  then have s1: "addressing s1 = addressing s" by (rule ports_get_addressing)
  show ?case
  proof (cases r1)
    case (Inl e)
    with g "1.prems" s1 show ?thesis by (subst (asm) read_until_data.simps) simp
  next
    case (Inr ipo)
    show ?thesis
    proof (cases ipo)
      case None
      with g Inr "1.prems" s1 show ?thesis by (subst (asm) read_until_data.simps) simp
    next
      case (Some ip)
      show ?thesis
      proof (cases "ip_type ip = Data")
        case True
        with g Inr Some "1.prems" s1 show ?thesis
          by (subst (asm) read_until_data.simps) simp
      next
        case False
        with g Inr Some "1.prems" have "read_until_data s1 port idx (prefix @ [ip]) = (r, s')"
          by (subst (asm) read_until_data.simps) simp
        with "1.IH" [OF g [symmetric] Inr Some False] have "addressing s' = addressing s1" by simp
        with s1 show ?thesis by simp
      qed
    qed
  qed
qed

lemma getForForwarding_addressing:
  assumes "getForForwarding s port idx = (r, s')"
  shows "addressing s' = addressing s"
proof -
  from assms obtain r1 s1 where rd: "read_until_data s port idx [] = (r1, s1)"
    and eq: "ports s' = ports s1"
    by (elim getForForwarding_read)
  from eq have "addressing s' = addressing s1" by (rule addressing_ports)
  with read_until_data_addressing [OF rd] show ?thesis by simp
qed

lemma fetch_addressing: "fetch s port idx = (r, s') \<Longrightarrow> addressing s' = addressing s"
  by (auto simp: fetch_def split: if_splits
           dest: getForForwarding_addressing ports_get_addressing)

lemma get_port_addressing: "get_port s port = (r, s') \<Longrightarrow> addressing s' = addressing s"
  by (cases port) (auto split: option.splits if_splits dest: fetch_addressing)

lemma get_loop_addressing: "get_loop s acc args = (r, s') \<Longrightarrow> addressing s' = addressing s"
proof (induction args arbitrary: s acc)
  case Nil
  then show ?case by simp
next
  case (Cons port rest)
  obtain r1 s1 where g: "get_port s port = (r1, s1)" by (cases "get_port s port")
  then have 1: "addressing s1 = addressing s" by (rule get_port_addressing)
  show ?case
  proof (cases r1)
    case (Inl e)
    with g Cons.prems 1 show ?thesis by simp
  next
    case (Inr ip)
    with g Cons.prems have "get_loop s1 (acc @ [ip]) rest = (r, s')" by simp
    then have "addressing s' = addressing s1" by (rule Cons.IH)
    with 1 show ?thesis by simp
  qed
qed

lemma get_loop_append:
  "get_loop s acc (xs @ ys) =
     (case get_loop s acc xs of
        (Inl e, s') \<Rightarrow> (Inl e, s')
      | (Inr r, s') \<Rightarrow> get_loop s' r ys)"
  by (induction xs arbitrary: s acc) (auto split: prod.splits sum.splits)

text \<open>
  The error of a port argument in the wrong form: a plain name for an addressable port, an
  array for a port that is not addressable.
\<close>

fun misused :: "'a ProcessInput \<Rightarrow> portref \<Rightarrow> error option" where
  "misused s (Name n) = (if addressing s n = Some True then Some AddressableAccess else None)"
| "misused s (Indexed n i) =
     (if addressing s n = Some False then Some NonAddressableAccess else None)"

lemma misused_addressing: "addressing s' = addressing s \<Longrightarrow> misused s' port = misused s port"
  by (cases port) simp_all

lemma get_port_misused: "misused s port = Some e \<Longrightarrow> get_port s port = (Inl e, s)"
  by (cases port) (auto simp: addressing_def split: if_splits option.splits)

lemma has_misused:
  assumes "misused s (Name n) = Some e"
  shows "has s (Port (Name n) # params) = (Inl e, s)"
proof -
  from assms have l: "\<And>v st rest. has_loop s v st (Name n # rest) = (Inl e, s)"
    by (auto simp: addressing_def split: if_splits option.splits)
  show ?thesis
    by (cases "trailing_fun (Port (Name n) # params)")
       (auto simp: has_def Let_def l simp del: has_loop.simps)
qed

section \<open>Concrete gateways\<close>

text \<open>
  A component with no load and empty bracket stacks, a port with one filled partition in the
  default scope, and the gateway that the constructor builds from the inports and a fresh
  context; its ports object answers the name \<^verbatim>\<open>constructor\<close> besides the registered ports.
\<close>

definition node :: "bool \<Rightarrow> (string \<Rightarrow> bool) \<Rightarrow> Component" where
  "node ordered forwarding =
     \<lparr>nodeId = ''node'', isOrdered = ordered, isForwardingInport = forwarding, load = 0,
      bracketContext = (\<lambda>k. [])\<rparr>"

definition inport :: "bool \<Rightarrow> nat option \<Rightarrow> 'a IP list \<Rightarrow> 'a InPort" where
  "inport addr idx buf =
     \<lparr>addressable = addr, attachedList = [], buffer = (\<lambda>k. [])((None, idx) := buf)\<rparr>"

definition processInput :: "(string \<rightharpoonup> 'a InPort) \<Rightarrow> Component \<Rightarrow> 'a ProcessInput" where
  "processInput inports n =
     \<lparr>ports = inports, inherited = (\<lambda>name. name = ''constructor''), nodeInstance = n,
      activated = False,
      result = \<lparr>resolved = None, bracketClosingBefore = None, resBracketContext = None\<rparr>,
      scope = None, store = []\<rparr>"

text \<open>One port \<^verbatim>\<open>in\<close>, not addressable: on an unordered node that forwards nothing, and on an
  ordered node that forwards the brackets of \<^verbatim>\<open>in\<close>.\<close>

definition plain_in :: "string IP list \<Rightarrow> string ProcessInput" where
  "plain_in buf = processInput [''in'' \<mapsto> inport False None buf] (node False (\<lambda>n. False))"

definition forwarding_in :: "string IP list \<Rightarrow> string ProcessInput" where
  "forwarding_in buf =
     processInput [''in'' \<mapsto> inport False None buf] (node True (\<lambda>n. n = ''in''))"

text \<open>The buffer of the stream whose first bracket is never closed.\<close>

definition P7 :: "string IP list" where
  "P7 = [IP OpenBracket ''a'', IP Data ''1'', IP OpenBracket ''b'', IP Data ''2'',
         IP CloseBracket ''b'']"

text \<open>
  A plain port \<^verbatim>\<open>a\<close> next to an addressable port \<^verbatim>\<open>p\<close>, a gateway whose only port is the
  addressable \<^verbatim>\<open>p\<close>, and a gateway whose port \<^verbatim>\<open>in\<close> is addressable.
\<close>

definition two_ports :: "string ProcessInput" where
  "two_ports =
     processInput [''a'' \<mapsto> inport False None [IP Data ''x''],
                   ''p'' \<mapsto> inport True (Some 0) [IP Data ''y'']]
       (node False (\<lambda>n. False))"

definition addressable_p :: "string ProcessInput" where
  "addressable_p =
     processInput [''p'' \<mapsto> inport True (Some 0) [IP Data ''x'']] (node False (\<lambda>n. False))"

definition addressable_in :: "string ProcessInput" where
  "addressable_in =
     processInput [''in'' \<mapsto> inport True (Some 0) [IP Data ''x'']] (node False (\<lambda>n. False))"

text \<open>\<^verbatim>\<open>result.__bracketContext[port]\<close>.\<close>

definition snapshot :: "'a ProcessInput \<Rightarrow> string \<Rightarrow> ref list option" where
  "snapshot s port = (case resBracketContext (result s) of None \<Rightarrow> None | Some m \<Rightarrow> m port)"

section \<open>Stream checks called with a predicate only\<close>

text \<open>
  C10. \<open>hasStream\<close> called with a stream predicate as its only argument: the argument list is
  not empty when the default is considered, so \<^verbatim>\<open>in\<close> is not substituted; the predicate is
  then taken off the end, no port is left, and the call answers true in every state of the
  gateway, whatever the buffers hold and even when no port is registered.
\<close>

theorem hasStream_only_function:
  "hasStream s [Fun validateStream] = (Inr True, s)"
  by (simp add: hasStream_def)

theorem hasStream_only_function_witness:
  "hasStream (processInput Map.empty (node False (\<lambda>n. False)) :: string ProcessInput)
     [Fun (\<lambda>ip brackets. False)]
     = (Inr True, processInput Map.empty (node False (\<lambda>n. False)))"
  using hasStream_only_function
    [of "processInput Map.empty (node False (\<lambda>n. False))" "\<lambda>ip brackets. False"]
  by simp

text \<open>With no argument at all the same gateway is asked for its port \<^verbatim>\<open>in\<close>.\<close>

lemma hasStream_no_argument:
  "fst (hasStream (processInput Map.empty (node False (\<lambda>n. False)) :: string ProcessInput) [])
     = Inl (NoPort ''in'')"
  by code_simp

section \<open>Reading payloads from a buffer without data\<close>

text \<open>
  C3. \<open>getData\<close> is to answer with an absent value when the buffer of a port runs out before a
  data packet appears. On a port that does not forward brackets and holds one opening bracket,
  the first read returns the bracket, the loop reads again, gets \<^verbatim>\<open>undefined\<close> and breaks,
  and \<^verbatim>\<open>packet.data\<close> then raises a TypeError instead.
\<close>

theorem getData_bracket_then_exhausted:
  "fst (getData (plain_in [IP OpenBracket ''L'']) [Name ''in'']) = Inl TypeError"
  by code_simp

text \<open>On a forwarding port the same buffer gives the absent value.\<close>

lemma getData_forwarding_exhausted:
  "fst (getData (forwarding_in [IP OpenBracket ''L'']) [Name ''in'']) = Inr (One None)"
  by code_simp

section \<open>Ports that are not registered\<close>

text \<open>
  C9. A name under which no port is registered: \<open>get\<close> has no check, calls \<^verbatim>\<open>isAddressable\<close>
  on what the lookup gave and ends in a TypeError, after the activation. \<open>has\<close> and \<open>attached\<close>
  check the lookup first and leave the gateway as it was: they raise the error that names the
  missing port when the lookup is \<^verbatim>\<open>undefined\<close>, and run into the TypeError only for a name
  that the ports object answers with something else.
\<close>

theorem get_unknown_port:
  assumes "ports s n = None"
  shows "get s [Name n] = (Inl TypeError, activate s)
       \<and> get s [Indexed n i] = (Inl TypeError, activate s)
       \<and> has s [Port (Name n), Fun v]
           = (Inl (if inherited s n then TypeError else NoPort n), s)
       \<and> attached s [n] = (Inl (if inherited s n then TypeError else NoPort n), s)"
  using assms by (cases v) (simp add: get_def has_def attached_def)

theorem get_unknown_port_witness:
  "ports (plain_in [IP Data ''x'']) ''nope'' = None
   \<and> fst (get (plain_in [IP Data ''x'']) [Name ''nope'']) = Inl TypeError
   \<and> load (nodeInstance (snd (get (plain_in [IP Data ''x'']) [Name ''nope'']))) = 1
   \<and> fst (has (plain_in [IP Data ''x'']) [Port (Name ''nope''), Fun (\<lambda>st ip. (True, st), ())])
       = Inl (NoPort ''nope'')
   \<and> fst (attached (plain_in [IP Data ''x'']) [''nope'']) = Inl (NoPort ''nope'')
   \<and> fst (has (plain_in [IP Data ''x''])
          [Port (Name ''constructor''), Fun (\<lambda>st ip. (True, st), ())]) = Inl TypeError
   \<and> fst (attached (plain_in [IP Data ''x'']) [''constructor'']) = Inl TypeError"
proof -
  have h: "ports (plain_in [IP Data ''x'']) ''nope'' = None"
    "ports (plain_in [IP Data ''x'']) ''constructor'' = None"
    by (simp_all add: plain_in_def processInput_def)
  have i: "\<not> inherited (plain_in [IP Data ''x'']) ''nope''"
    "inherited (plain_in [IP Data ''x'']) ''constructor''"
    by (simp_all add: plain_in_def processInput_def)
  have l: "load (nodeInstance (activate (plain_in [IP Data ''x'']))) = 1"
    by (simp add: plain_in_def processInput_def activate_def node_activate_def node_def)
  from get_unknown_port [OF h(1), of 0 "(\<lambda>st ip. (True, st), ())"]
       get_unknown_port [OF h(2), of 0 "(\<lambda>st ip. (True, st), ())"] h i l
  show ?thesis by simp
qed

section \<open>Streams and the reset at an outer bracket\<close>

text \<open>
  C5, as stated, at the buffer of the example: on a port that does not forward brackets,
  \<open>getStream\<close> does not return the final three packets.
\<close>

theorem getStream_P7_counterexample:
  "fst (getStream (plain_in P7) [Name ''in''])
     \<noteq> Inr (One (Some [IP OpenBracket ''b'', IP Data ''2'', IP CloseBracket ''b'']))"
  by code_simp

lemma getStream_P7: "fst (getStream (plain_in P7) [Name ''in'']) = Inr (One (Some P7))"
  by code_simp

text \<open>
  C5, amended. An opening bracket that arrives while no bracket is open resets the packet list
  and the seen-data flag of the port: the pass leaves the list with the bracket alone and the
  flag false, and the rest of the loop does not depend on what had been accumulated. In the
  buffer of the example the second opening bracket arrives while the first is still open, so
  nothing is reset and all five packets are returned.
\<close>

theorem getStream_reset:
  assumes "ip_type ip = OpenBracket"
  shows "stream_step [] portPackets seen ip = ([ip_data ip], [ip], False, False)
       \<and> getStream_while s port [] portPackets seen (Some ip)
           = getStream_while s port [] [] False (Some ip)
       \<and> fst (getStream (plain_in P7) [Name ''in'']) = Inr (One (Some P7))"
  using assms getStream_P7 by (simp add: stream_step_def getStream_while.simps)

theorem getStream_reset_witness:
  "ip_type (IP OpenBracket ''b'') = OpenBracket
   \<and> stream_step [] [IP CloseBracket ''a''] True (IP OpenBracket ''b'')
       = ([''b''], [IP OpenBracket ''b''], False, False)
   \<and> fst (getStream (plain_in [IP CloseBracket ''a'', IP OpenBracket ''b'', IP Data ''2'',
                               IP CloseBracket ''b'']) [Name ''in''])
       = Inr (One (Some [IP OpenBracket ''b'', IP Data ''2'', IP CloseBracket ''b'']))"
proof -
  have h: "ip_type (IP OpenBracket ''b'') = OpenBracket" by simp
  have e: "fst (getStream (plain_in [IP CloseBracket ''a'', IP OpenBracket ''b'', IP Data ''2'',
                               IP CloseBracket ''b'']) [Name ''in''])
       = Inr (One (Some [IP OpenBracket ''b'', IP Data ''2'', IP CloseBracket ''b'']))"
    by code_simp
  from getStream_reset [OF h, of "[IP CloseBracket ''a'']" True] h e show ?thesis by simp
qed

section \<open>Closing a bracket that was never opened\<close>

text \<open>
  C1, amended. On a forwarding port, when the brackets in front of the data packet close a
  bracket while the stack of the port is empty, the read ends in the TypeError of the
  assignment to the \<^verbatim>\<open>undefined\<close> that \<^verbatim>\<open>pop\<close> returned. The failure reaches the caller, but
  it is the runtime's error for an access to \<^verbatim>\<open>undefined\<close>, not one of its own; the brackets
  and the data packet read so far stay dequeued and the invocation stays activated.
\<close>

theorem forwarding_pop_empty:
  assumes "ports s n = Some p" and "addressable p = (idx \<noteq> None)"
    and "isForwardingInport (nodeInstance s) n"
    and "underflow (length (getBracketContext s n idx))
           (takeWhile notData (buffer p (scope s, idx)))"
  shows "fst (get s [portref_of n idx]) = Inl TypeError
       \<and> pending (snd (get s [portref_of n idx])) n idx
           = length (tl (dropWhile notData (buffer p (scope s, idx))))
       \<and> activated (snd (get s [portref_of n idx]))"
proof -
  let ?a = "activate s"
  let ?buf = "buffer p (scope s, idx)"
  let ?d = "dequeued ?a n idx p (tl (dropWhile notData ?buf))"
  obtain r2 s2 where fp: "forward_prefix ?d n idx (takeWhile notData ?buf) = (r2, s2)"
    by (cases "forward_prefix ?d n idx (takeWhile notData ?buf)")
  from forward_prefix_error [of ?d n idx "takeWhile notData ?buf"] assms(4) fp
  have r2: "r2 = Inl TypeError" by simp
  have "get_port ?a (portref_of n idx) = fetch ?a n idx"
    using assms(1,2) by (intro get_port_fetch) simp_all
  also have "\<dots> = getForForwarding ?a n idx"
    using assms(3) by (simp add: fetch_def)
  also have "\<dots> = (Inl TypeError, s2)"
    using assms(1) fp r2 by (subst getForForwarding_buffer [of ?a n p idx ?buf]) simp_all
  finally have g: "get s [portref_of n idx] = (Inl TypeError, s2)"
    by (simp add: get_single)
  from fp have ps: "ports s2 = ports ?d" "scope s2 = scope ?d"
    by (auto dest: forward_prefix_ports)
  from fp have "same_invocation ?d s2" by (rule forward_prefix_same)
  then have act: "activated s2" by (simp add: same_invocation_def)
  from ps have "pending s2 n idx = length (tl (dropWhile notData ?buf))"
    by (simp add: pending_def)
  with g act show ?thesis by simp
qed

theorem forwarding_pop_empty_witness:
  "ports (forwarding_in [IP CloseBracket ''L'', IP Data ''x'']) ''in''
     = Some (inport False None [IP CloseBracket ''L'', IP Data ''x''])
   \<and> fst (get (forwarding_in [IP CloseBracket ''L'', IP Data ''x'']) [Name ''in'']) = Inl TypeError
   \<and> pending (snd (get (forwarding_in [IP CloseBracket ''L'', IP Data ''x'']) [Name ''in'']))
        ''in'' None = 0"
proof -
  let ?s = "forwarding_in [IP CloseBracket ''L'', IP Data ''x'']"
  let ?p = "inport False None [IP CloseBracket ''L'', IP Data ''x'']"
  have 1: "ports ?s ''in'' = Some ?p"
    by (simp add: forwarding_in_def processInput_def)
  have 2: "addressable ?p = ((None :: nat option) \<noteq> None)"
    by (simp add: inport_def)
  have 3: "isForwardingInport (nodeInstance ?s) ''in''"
    by (simp add: forwarding_in_def processInput_def node_def)
  have 4: "underflow (length (getBracketContext ?s ''in'' None))
             (takeWhile notData (buffer ?p (scope ?s, None)))"
    by (simp add: forwarding_in_def processInput_def node_def inport_def getBracketContext_def)
  have 5: "buffer ?p (scope ?s, None) = [IP CloseBracket ''L'', IP Data ''x'']"
    by (simp add: forwarding_in_def processInput_def inport_def)
  from forwarding_pop_empty [OF 1 2 3 4] 1 5 show ?thesis by simp
qed

text \<open>
  C1, as stated, at a forwarding port that holds one closing bracket and has no open bracket:
  the caller gets the same TypeError as for a read of a port that does not exist.
\<close>

theorem forwarding_pop_empty_counterexample:
  "fst (get (forwarding_in [IP CloseBracket ''L'']) [Name ''in'']) = Inl TypeError
   \<and> fst (get (forwarding_in [IP CloseBracket ''L'']) [Name ''nope'']) = Inl TypeError"
  by code_simp

section \<open>Activation happens once\<close>





section \<open>Precondition checks consume nothing\<close>

text \<open>
  A precondition call, and a run of precondition calls on the gateway; each call hands the
  gateway on as it leaves it.
\<close>

datatype ('a, 'st) precondition =
    Has "(('a, 'st) validator \<times> 'st) param list"
  | HasData "(('a, unit) validator \<times> unit) param list"
  | HasStream "('a IP \<Rightarrow> 'a list \<Rightarrow> bool) param list"

fun check :: "'a ProcessInput \<Rightarrow> ('a, 'st) precondition \<Rightarrow> (error + bool) \<times> 'a ProcessInput" where
  "check s (Has params) = has s params"
| "check s (HasData params) = hasData s params"
| "check s (HasStream params) = hasStream s params"

fun checks :: "'a ProcessInput \<Rightarrow> ('a, 'st) precondition list \<Rightarrow> 'a ProcessInput" where
  "checks s [] = s"
| "checks s (q # qs) = checks (snd (check s q)) qs"

lemma check_state: "snd (check s q) = s"
  by (cases q) (simp_all add: has_state hasData_state hasStream_state)

text \<open>
  C6. Any number of calls of \<open>has\<close>, \<open>hasData\<close> and \<open>hasStream\<close>, whatever they are asked and
  whatever they answer or throw, leave the gateway as it was, so that the read that follows
  returns what it would have returned without them. The predicates passed in are functions of
  the packet and of their own captured variables.
\<close>

theorem preconditions_pure:
  "checks s qs = s \<and> get (checks s qs) args = get s args
   \<and> getData (checks s qs) args = getData s args
   \<and> getStream (checks s qs) args = getStream s args"
  by (induction qs) (simp_all add: check_state)

theorem preconditions_pure_witness:
  "fst (get (checks (plain_in [IP Data ''x''])
         [Has [Port (Name ''in''), Fun (\<lambda>st ip. (True, Suc st), 0)], HasData [],
          HasStream [Port (Name ''in'')], HasStream [Port (Name ''nope'')]]) [Name ''in''])
     = Inr (One (Some (IP Data ''x'')))"
proof -
  have "fst (get (plain_in [IP Data ''x'']) [Name ''in'']) = Inr (One (Some (IP Data ''x'')))"
    by code_simp
  with preconditions_pure [of "plain_in [IP Data ''x'']"
      "[Has [Port (Name ''in''), Fun (\<lambda>st ip. (True, Suc st), 0)], HasData [],
        HasStream [Port (Name ''in'')], HasStream [Port (Name ''nope'')]]" "[Name ''in'']"]
  show ?thesis by simp
qed

section \<open>A single data packet is a stream\<close>

text \<open>
  A registered port that is not addressable, named by its plain name, whose buffer holds exactly
  one data packet and no bracket: \<open>hasStream\<close> answers true and leaves the gateway as it was,
  and \<open>getStream\<close> returns the one-element list with that packet and empties the buffer, on a
  forwarding port as on any other.
\<close>

lemma single_data_is_stream:
  assumes "ports s n = Some p" and "\<not> addressable p"
    and "buffer p (scope s, None) = [ip]" and "ip_type ip = Data"
  shows "hasStream s [Port (Name n)] = (Inr True, s)
       \<and> fst (getStream s [Name n]) = Inr (One (Some [ip]))
       \<and> pending (snd (getStream s [Name n])) n None = 0"
proof -
  have "scan (stream_validate (\<lambda>ip brackets. True)) ([], False) [ip] = (True, ([], True))"
    using assms(4) by (simp add: stream_validate_def)
  with assms(1-3) have h: "hasStream s [Port (Name n)] = (Inr True, s)"
    by (simp add: hasStream_def has_def port_has_def)
  have "buffer p (scope (activate s), None) = ip # []" using assms(3) by simp
  with assms(1,4) obtain s' where f: "fetch (activate s) n None = (Inr (Some ip), s')"
    and p: "pending s' n None = 0"
    using fetch_data_first [of "activate s" n p None ip "[]"] by auto
  with assms(1,2) have g: "get_one s (Name n) = (Inr (Some ip), s')"
    by (simp add: get_one_eq)
  have "getStream_while s' (Name n) [] [] False (Some ip) = (Inr [ip], s')"
    using assms(4) by (simp add: getStream_while.simps stream_step_def)
  with g have "getStream s [Name n] = (Inr (One (Some [ip])), s')"
    by (simp add: getStream_def getStream_port_def pop_def)
  with h p show ?thesis by simp
qed

lemma single_data_is_stream_plain_in:
  "fst (hasStream (forwarding_in [IP Data ''x'']) [Port (Name ''in'')]) = Inr True
   \<and> fst (getStream (forwarding_in [IP Data ''x'']) [Name ''in'']) = Inr (One (Some [IP Data ''x'']))"
proof -
  let ?s = "forwarding_in [IP Data ''x'']"
  let ?p = "inport False None [IP Data ''x'']"
  have 1: "ports ?s ''in'' = Some ?p"
    by (simp add: forwarding_in_def processInput_def)
  have 2: "\<not> addressable ?p" by (simp add: inport_def)
  have 3: "buffer ?p (scope ?s, None) = [IP Data ''x'']"
    by (simp add: forwarding_in_def processInput_def inport_def)
  have 4: "ip_type (IP Data ''x'') = Data" by simp
  from single_data_is_stream [OF 1 2 3 4] show ?thesis by simp
qed

text \<open>
  C8. On an addressable port the partition is named by the array of name and index. The
  single data packet at index 0 of the addressable port \<^verbatim>\<open>p\<close> is returned by \<open>getStream\<close> as a
  one-element list, but \<open>hasStream\<close> does not answer true for it: it hands the array to \<open>has\<close>,
  which keeps only strings as port arguments, so that in every state the call is the call for
  the port \<^verbatim>\<open>in\<close>, which this gateway does not have.
\<close>

theorem hasStream_indexed_asks_in:
  "hasStream s [Port (Indexed n i)] = hasStream s [Port (Name ''in'')]
   \<and> fst (hasStream addressable_p [Port (Indexed ''p'' 0)]) = Inl (NoPort ''in'')
   \<and> fst (getStream addressable_p [Indexed ''p'' 0]) = Inr (One (Some [IP Data ''x'']))"
proof -
  have 1: "hasStream s [Port (Indexed n i)] = hasStream s [Port (Name ''in'')]"
    by (simp add: hasStream_def has_def)
  have 2: "fst (hasStream addressable_p [Port (Indexed ''p'' 0)]) = Inl (NoPort ''in'')"
    by code_simp
  have 3: "fst (getStream addressable_p [Indexed ''p'' 0]) = Inr (One (Some [IP Data ''x'']))"
    by code_simp
  from 1 2 3 show ?thesis by simp
qed

text \<open>Under its plain name the addressable port is refused, as in \<open>has\<close>.\<close>

lemma hasStream_plain_name_of_addressable:
  "fst (hasStream addressable_p [Port (Name ''p'')]) = Inl AddressableAccess"
  by code_simp

section \<open>Forwarding keeps the brackets\<close>

text \<open>
  C4. A forwarding port, named by its plain name, whose buffer holds an opening bracket with
  label \<open>l\<close>, a data packet with payload \<open>x\<close> and the closing bracket: one \<open>getData\<close> returns
  \<open>x\<close>; one bracket context is allocated for the opening bracket and pushed on the live stack
  of the port; the result holds for the port a copy of that stack, whose last entry is the new
  context, with the opening bracket and no closing packet yet; whatever is pushed on or popped
  off the live stack afterwards, the copy in the result stays the same; the closing bracket is
  still in the buffer.
\<close>

theorem forwarding_keeps_brackets:
  assumes "ports s n = Some p" and "\<not> addressable p"
    and "isForwardingInport (nodeInstance s) n"
    and "buffer p (scope s, None) = [IP OpenBracket l, IP Data x, IP CloseBracket l]"
  shows "fst (getData s [Name n]) = Inr (One (Some x))
       \<and> store (snd (getData s [Name n]))
           = store s @ [\<lparr>br_ip = IP OpenBracket l, br_ports = [], br_source = n,
                         br_closeIp = None\<rparr>]
       \<and> getBracketContext (snd (getData s [Name n])) n None
           = getBracketContext s n None @ [length (store s)]
       \<and> snapshot (snd (getData s [Name n])) n
           = Some (getBracketContext s n None @ [length (store s)])
       \<and> snapshot (setBracketContext (snd (getData s [Name n])) n None stack) n
           = snapshot (snd (getData s [Name n])) n
       \<and> br_ip (store (snd (getData s [Name n])) ! length (store s)) = IP OpenBracket l
       \<and> br_closeIp (store (snd (getData s [Name n])) ! length (store s)) = None
       \<and> pending (snd (getData s [Name n])) n None = 1"
proof -
  let ?a = "activate s"
  let ?buf = "[IP OpenBracket l, IP Data x, IP CloseBracket l]"
  have b: "buffer p (scope ?a, None) = ?buf" using assms(4) by simp
  have pa: "ports ?a n = Some p" using assms(1) by simp
  obtain r3 s3 where g: "getForForwarding ?a n None = (r3, s3)"
    by (cases "getForForwarding ?a n None")
  from g have r3: "r3 = Inr (Some (IP Data x))"
    by (simp add: getForForwarding_buffer [OF pa b] Let_def)
  from g have st: "store s3 = store s @ [\<lparr>br_ip = IP OpenBracket l, br_ports = [],
      br_source = n, br_closeIp = None\<rparr>]"
    by (auto simp: getForForwarding_buffer [OF pa b] Let_def)
  from g have live: "getBracketContext s3 n None = getBracketContext s n None @ [length (store s)]"
    by (auto simp: getForForwarding_buffer [OF pa b] Let_def)
  from g have snap: "snapshot s3 n = Some (getBracketContext s n None @ [length (store s)])"
    by (auto simp: getForForwarding_buffer [OF pa b] Let_def snapshot_def)
  from g have pend: "pending s3 n None = 1"
    by (auto simp: getForForwarding_buffer [OF pa b] Let_def pending_def setBracketContext_def)
  from g r3 assms(1-3) have "get_one s (Name n) = (Inr (Some (IP Data x)), s3)"
    by (simp add: get_one_eq fetch_def)
  then have "getData s [Name n] = (Inr (One (Some x)), s3)"
    by (simp add: getData_def getData_port_def getData_while.simps pop_def)
  moreover have "snapshot (setBracketContext s3 n None stack) n = snapshot s3 n"
    by (simp add: snapshot_def)
  ultimately show ?thesis using st live snap pend by simp
qed

theorem forwarding_keeps_brackets_witness:
  "fst (getData (forwarding_in [IP OpenBracket ''L'', IP Data ''x'', IP CloseBracket ''L''])
          [Name ''in'']) = Inr (One (Some ''x''))
   \<and> snapshot (snd (getData (forwarding_in [IP OpenBracket ''L'', IP Data ''x'',
          IP CloseBracket ''L'']) [Name ''in''])) ''in'' = Some [0]
   \<and> store (snd (getData (forwarding_in [IP OpenBracket ''L'', IP Data ''x'',
          IP CloseBracket ''L'']) [Name ''in'']))
       = [\<lparr>br_ip = IP OpenBracket ''L'', br_ports = [], br_source = ''in'', br_closeIp = None\<rparr>]"
proof -
  let ?buf = "[IP OpenBracket ''L'', IP Data ''x'', IP CloseBracket ''L'']"
  let ?s = "forwarding_in ?buf"
  let ?p = "inport False None ?buf"
  have 1: "ports ?s ''in'' = Some ?p"
    by (simp add: forwarding_in_def processInput_def)
  have 2: "\<not> addressable ?p" by (simp add: inport_def)
  have 3: "isForwardingInport (nodeInstance ?s) ''in''"
    by (simp add: forwarding_in_def processInput_def node_def)
  have 4: "buffer ?p (scope ?s, None) = ?buf"
    by (simp add: forwarding_in_def processInput_def inport_def)
  have 5: "store ?s = []" "getBracketContext ?s ''in'' None = []"
    by (simp_all add: forwarding_in_def processInput_def node_def getBracketContext_def)
  from forwarding_keeps_brackets [OF 1 2 3 4] 5 show ?thesis by simp
qed

text \<open>
  The next read of the same gateway finds the closing bracket and no data: it pops the context,
  writes the closing packet into it, lists it among the brackets closed before data, and
  replaces the copy in the result by the empty stack.
\<close>

lemma forwarding_second_read:
  "fst (getData (snd (getData (forwarding_in [IP OpenBracket ''L'', IP Data ''x'',
          IP CloseBracket ''L'']) [Name ''in''])) [Name ''in'']) = Inr (One None)
   \<and> snapshot (snd (getData (snd (getData (forwarding_in [IP OpenBracket ''L'', IP Data ''x'',
          IP CloseBracket ''L'']) [Name ''in''])) [Name ''in''])) ''in'' = Some []
   \<and> bracketClosingBefore (result (snd (getData (snd (getData (forwarding_in [IP OpenBracket ''L'',
          IP Data ''x'', IP CloseBracket ''L'']) [Name ''in''])) [Name ''in'']))) = Some [0]
   \<and> map br_closeIp (store (snd (getData (snd (getData (forwarding_in [IP OpenBracket ''L'',
          IP Data ''x'', IP CloseBracket ''L'']) [Name ''in''])) [Name ''in''])))
       = [Some (IP CloseBracket ''L'')]"
  by code_simp

section \<open>Port arguments in the wrong form\<close>

text \<open>
  C2, as stated, at a read of the plain port \<^verbatim>\<open>a\<close> followed by the addressable port \<^verbatim>\<open>p\<close>
  under its plain name: the call fails with the addressability error, and the packet of \<^verbatim>\<open>a\<close>
  has been consumed.
\<close>

theorem misuse_after_read_counterexample:
  "fst (get two_ports [Name ''a'', Name ''p'']) = Inl AddressableAccess
   \<and> pending two_ports ''a'' None = 1
   \<and> pending (snd (get two_ports [Name ''a'', Name ''p''])) ''a'' None = 0"
  by code_simp

text \<open>
  C2, amended. When a \<open>get\<close> reaches a port argument in the wrong form after reading the ports
  in front of it without error, it fails with the addressability error and leaves the gateway
  exactly as the reads of the earlier ports left it: nothing is consumed from the misused port
  or from the ports after it, the packets of the earlier ports stay dequeued. A read of the
  misused port alone leaves the activated gateway with all its buffers. \<open>has\<close> given the plain
  name of an addressable port as its first port fails with the same error and leaves the
  gateway as it was.
\<close>

theorem addressability_mismatch:
  assumes "get_loop (activate s) [] before = (Inr r, s1)" and "misused s port = Some e"
  shows "get s (before @ port # after) = (Inl e, s1)
       \<and> get s [port] = (Inl e, activate s)
       \<and> ports (activate s) = ports s
       \<and> (e = AddressableAccess \<or> e = NonAddressableAccess)
       \<and> (case port of
             Name n \<Rightarrow> has s (Port port # params) = (Inl e, s)
           | Indexed n i \<Rightarrow> True)"
proof -
  have "addressing (activate s) = addressing s" by (rule addressing_ports) simp
  then have "misused (activate s) port = misused s port" by (rule misused_addressing)
  with assms(2) have m0: "misused (activate s) port = Some e" by simp
  from assms(1) have "addressing s1 = addressing (activate s)" by (rule get_loop_addressing)
  then have "misused s1 port = misused (activate s) port" by (rule misused_addressing)
  with m0 have "misused s1 port = Some e" by simp
  then have "get_port s1 port = (Inl e, s1)" by (rule get_port_misused)
  with assms(1) have "get_loop (activate s) [] (before @ port # after) = (Inl e, s1)"
    by (simp add: get_loop_append)
  then have 1: "get s (before @ port # after) = (Inl e, s1)"
    by (simp add: get_def)
  from m0 have 2: "get s [port] = (Inl e, activate s)"
    by (simp add: get_single get_port_misused)
  from assms(2) have 3: "e = AddressableAccess \<or> e = NonAddressableAccess"
    by (cases port) (auto split: if_splits)
  from assms(2) have 4: "case port of
             Name n \<Rightarrow> has s (Port port # params) = (Inl e, s)
           | Indexed n i \<Rightarrow> True"
    by (cases port) (simp_all only: portref.case has_misused)
  from 1 2 3 4 show ?thesis by simp
qed

theorem addressability_mismatch_witness:
  "fst (get two_ports [Name ''a'', Name ''p'', Name ''a'']) = Inl AddressableAccess
   \<and> get two_ports [Name ''p''] = (Inl AddressableAccess, activate two_ports)
   \<and> get two_ports [Indexed ''a'' 0] = (Inl NonAddressableAccess, activate two_ports)
   \<and> has two_ports [Port (Name ''p''), Fun (\<lambda>st ip. (True, st), ())]
       = (Inl AddressableAccess, two_ports)"
proof -
  obtain r s1 where 1: "get_loop (activate two_ports) [] [Name ''a''] = (r, s1)"
    by (cases "get_loop (activate two_ports) [] [Name ''a'']")
  have "fst (get_loop (activate two_ports) [] [Name ''a'']) = Inr [Some (IP Data ''x'')]"
    by code_simp
  with 1 have 2: "get_loop (activate two_ports) [] [Name ''a''] = (Inr [Some (IP Data ''x'')], s1)"
    by simp
  have 3: "misused two_ports (Name ''p'') = Some AddressableAccess"
    by (simp add: two_ports_def processInput_def inport_def addressing_def)
  have 4: "misused two_ports (Indexed ''a'' 0) = Some NonAddressableAccess"
    by (simp add: two_ports_def processInput_def inport_def addressing_def)
  have 5: "get_loop (activate two_ports) [] [] = (Inr [], activate two_ports)" by simp
  from addressability_mismatch [OF 2 3, of "[Name ''a'']" "[Fun (\<lambda>st ip. (True, st), ())]"]
       addressability_mismatch [OF 5 4, of "[]" "[]"]
  show ?thesis by simp
qed

text \<open>
  An array argument of \<open>has\<close> does not reach the loop: only strings are kept as port arguments,
  so the call is the call without it, and a call with nothing else asks for \<^verbatim>\<open>in\<close>.
\<close>

lemma has_indexed_dropped: "has s (Port (Indexed n i) # params) = has s params"
  by (cases params) (simp_all add: has_def)

lemma has_indexed_asks_in:
  "fst (has addressable_in [Port (Indexed ''in'' 0), Fun (\<lambda>st ip. (True, st), ())])
     = Inl AddressableAccess"
  by code_simp

end
